theory Spec2Isabelle
  imports Main
begin

section \<open>The reflection view of Go types and values\<close>

text \<open>
  The hydrator works on \<^verbatim>\<open>interface{}\<close> values through package \<^verbatim>\<open>reflect\<close>. The embedding
  keeps what \<^verbatim>\<open>reflect\<close> shows of a value: its dynamic type (kind, package path, name,
  element type) and, for a struct, the descriptor of every field next to the field's value.
  Pointers are modelled by the value they point to, so a call that mutates a pointee returns
  the updated pointer value; two pointers never alias in this model.
\<close>

datatype kind = KInt | KString | KPtr | KSlice | KArray | KStruct

datatype gotype =
    TInt
  | TString
  | TPtr gotype
  | TSlice gotype
  | TArray nat gotype
  | TNamed string string

fun type_Kind :: "gotype \<Rightarrow> kind" where
  "type_Kind TInt = KInt"
| "type_Kind TString = KString"
| "type_Kind (TPtr t) = KPtr"
| "type_Kind (TSlice t) = KSlice"
| "type_Kind (TArray n t) = KArray"
| "type_Kind (TNamed p n) = KStruct"

fun type_PkgPath :: "gotype \<Rightarrow> string" where
  "type_PkgPath (TNamed p n) = p"
| "type_PkgPath t = []"

fun type_Name :: "gotype \<Rightarrow> string" where
  "type_Name TInt = ''int''"
| "type_Name TString = ''string''"
| "type_Name (TNamed p n) = n"
| "type_Name t = []"

text \<open>\<^verbatim>\<open>Type.Elem()\<close> panics on a type that is no pointer, slice or array: \<open>None\<close>.\<close>

fun type_Elem :: "gotype \<Rightarrow> gotype option" where
  "type_Elem (TPtr t) = Some t"
| "type_Elem (TSlice t) = Some t"
| "type_Elem (TArray n t) = Some t"
| "type_Elem t = None"

record StructField =
  sf_Name :: string
  sf_Type :: gotype
  sf_Tag :: "(string \<times> string) list"
  sf_Anonymous :: bool

text \<open>\<^verbatim>\<open>StructTag.Get\<close>: the value stored under a key, the empty string when there is none.\<close>

definition Tag_Get :: "(string \<times> string) list \<Rightarrow> string \<Rightarrow> string" where
  "Tag_Get tg key = (case map_of tg key of None \<Rightarrow> [] | Some v \<Rightarrow> v)"

text \<open>A Go identifier is exported when it starts with an upper-case letter (ASCII here).\<close>

definition is_exported :: "string \<Rightarrow> bool" where
  "is_exported nm =
     (case nm of [] \<Rightarrow> False
      | c # cs \<Rightarrow> (65::nat) \<le> of_char c \<and> (of_char c :: nat) \<le> 90)"

text \<open>
  \<open>Nil\<close> is the nil \<^verbatim>\<open>interface{}\<close>, whose \<^verbatim>\<open>reflect.ValueOf\<close> is the zero \<^verbatim>\<open>Value\<close>.
  \<open>NilPtr t\<close> is the nil pointer of type \<^verbatim>\<open>*t\<close>, \<open>Ref v\<close> a pointer to \<open>v\<close>.
\<close>

datatype gval =
    Nil
  | IntV int
  | StrV string
  | NilPtr gotype
  | Ref gval
  | SliceV gotype "gval list"
  | ArrayV gotype "gval list"
  | StructV string string "(StructField \<times> gval) list"

text \<open>\<^verbatim>\<open>Value.Type()\<close> panics on the zero \<^verbatim>\<open>Value\<close>: \<open>None\<close>.\<close>

fun TypeOf :: "gval \<Rightarrow> gotype option" where
  "TypeOf Nil = None"
| "TypeOf (IntV i) = Some TInt"
| "TypeOf (StrV s) = Some TString"
| "TypeOf (NilPtr t) = Some (TPtr t)"
| "TypeOf (Ref v) = map_option TPtr (TypeOf v)"
| "TypeOf (SliceV t xs) = Some (TSlice t)"
| "TypeOf (ArrayV t xs) = Some (TArray (length xs) t)"
| "TypeOf (StructV p n fs) = Some (TNamed p n)"

text \<open>\<^verbatim>\<open>reflect.Indirect\<close>: the pointee of a pointer (the zero \<^verbatim>\<open>Value\<close> for a nil pointer).\<close>

fun Indirect :: "gval \<Rightarrow> gval" where
  "Indirect (Ref v) = v"
| "Indirect (NilPtr t) = Nil"
| "Indirect v = v"

text \<open>A value reached through a pointer is addressable, so \<^verbatim>\<open>CanSet\<close> holds for it.\<close>

fun CanSet :: "gval \<Rightarrow> bool" where
  "CanSet (Ref v) = True"
| "CanSet v = False"

section \<open>Errors, panics and the hydrator\<close>

datatype error =
    ErrInvalidObject
  | ErrAnonymous string
  | ErrKind kind string
  | ErrPrivate gotype
  | ErrMismatch gotype string gotype
  | ErrUser string

text \<open>A Go panic, in the calling goroutine or in a task, ends the program: \<open>Panic\<close>.\<close>

datatype 'a outcome = Panic | Done 'a

text \<open>
  A finder and a method both take one \<^verbatim>\<open>interface{}\<close> and return \<^verbatim>\<open>(interface{}, error)\<close>.
  They are external code, taken here as functions of their input; a method is called on the
  object as the loop over the fields finds it. \<open>MethodSet\<close> is \<^verbatim>\<open>Type.MethodByName\<close>: the
  method of that name in the method set of a type, if any.
\<close>

type_synonym Finder = "gval \<Rightarrow> gval \<times> error option"

type_synonym MethodSet = "gotype \<Rightarrow> string \<Rightarrow> Finder option"

record Hydrator =
  tag :: string
  finders :: "string \<rightharpoonup> Finder"
  flowChan :: "nat option"

type_synonym Opt = "Hydrator \<Rightarrow> Hydrator"

text \<open>\<open>flowChan\<close> is the capacity of the channel, \<open>None\<close> while the channel is nil.\<close>

definition Concurrency :: "nat \<Rightarrow> Opt" where
  "Concurrency c h = (if flowChan h = None then h \<lparr> flowChan := Some c \<rparr> else h)"

definition Tag :: "string \<Rightarrow> Opt" where
  "Tag t h = h \<lparr> tag := t \<rparr>"

definition NewHydrator :: "Opt list \<Rightarrow> Hydrator" where
  "NewHydrator opts =
     (let h = fold (\<lambda>opt h. opt h) opts
                \<lparr> tag = ''hydrate'', finders = Map.empty, flowChan = None \<rparr>
      in if flowChan h = None then h \<lparr> flowChan := Some 10 \<rparr> else h)"

text \<open>The key of the \<^verbatim>\<open>finders\<close> map: \<^verbatim>\<open>PkgPath() + Name()\<close>.\<close>

definition type_key :: "gotype \<Rightarrow> string" where
  "type_key t = type_PkgPath t @ type_Name t"

definition Finder :: "Hydrator \<Rightarrow> gval \<Rightarrow> Finder \<Rightarrow> Hydrator outcome" where
  "Finder h obj finder =
     (case TypeOf (Indirect obj) of
        None \<Rightarrow> Panic
      | Some objType \<Rightarrow> Done (h \<lparr> finders := (finders h)(type_key objType \<mapsto> finder) \<rparr>))"

record hydrationResult =
  r_field :: string
  r_err :: "error option"
  r_val :: gval

section \<open>Field access by name\<close>

text \<open>\<^verbatim>\<open>Value.FieldByName\<close> on the struct's own fields, and \<^verbatim>\<open>Value.Set\<close> on one of them.\<close>

fun FieldByName :: "(StructField \<times> gval) list \<Rightarrow> string \<Rightarrow> (StructField \<times> gval) option" where
  "FieldByName [] nm = None"
| "FieldByName ((sf, v) # rest) nm =
     (if sf_Name sf = nm then Some (sf, v) else FieldByName rest nm)"

fun set_field :: "(StructField \<times> gval) list \<Rightarrow> string \<Rightarrow> gval \<Rightarrow> (StructField \<times> gval) list" where
  "set_field [] nm x = []"
| "set_field ((sf, v) # rest) nm x =
     (if sf_Name sf = nm then (sf, x) # rest else (sf, v) # set_field rest nm x)"

text \<open>
  The input of a finder, \<^verbatim>\<open>indObjVal.FieldByName(hydrateTag).Interface()\<close>: \<^verbatim>\<open>Interface\<close>
  panics on the zero \<^verbatim>\<open>Value\<close> (no such field) and on a value read from an unexported field.
\<close>

definition finder_input :: "(StructField \<times> gval) list \<Rightarrow> string \<Rightarrow> gval outcome" where
  "finder_input flds hydrateTag =
     (case FieldByName flds hydrateTag of
        None \<Rightarrow> Panic
      | Some (sf, v) \<Rightarrow> if is_exported (sf_Name sf) then Done v else Panic)"

section \<open>Completion order\<close>

text \<open>
  Every dispatched task is a goroutine, and results are drained in the order in which the
  tasks complete. That order is given by a clock: the completion time of the task at a path,
  where a path names the field (and the element of a sequence) through the nested calls.
  Draining sorts the results by completion time, so every order of the results of one call
  is the drain order under some clock, and nothing but an order is chosen by it. The
  capacity \<open>flowChan\<close> bounds how many tasks run at once; the runs described here are those
  in which every task obtains its slot.
\<close>

datatype step = AtField string | AtIndex nat

type_synonym clock = "step list \<Rightarrow> nat"

text \<open>Tasks run concurrently: one panic ends the program, whatever the others do.\<close>

fun join_tasks :: "'a outcome option list \<Rightarrow> 'a list outcome option" where
  "join_tasks [] = Some (Done [])"
| "join_tasks (r # rs) =
     (case r of
        Some Panic \<Rightarrow> Some Panic
      | None \<Rightarrow> (case join_tasks rs of Some Panic \<Rightarrow> Some Panic | _ \<Rightarrow> None)
      | Some (Done x) \<Rightarrow>
          (case join_tasks rs of
             Some Panic \<Rightarrow> Some Panic
           | None \<Rightarrow> None
           | Some (Done xs) \<Rightarrow> Some (Done (x # xs))))"

section \<open>Hydrate: the loop over the fields\<close>

text \<open>
  Lines 159 to 236. The result is the error set by a \<^verbatim>\<open>break\<close> (if any) and the tasks
  started before it, in field order; a task is the result it sends, or a panic.
\<close>

definition add_task :: "hydrationResult outcome \<Rightarrow>
    error option \<times> hydrationResult outcome list \<Rightarrow>
    error option \<times> hydrationResult outcome list" where
  "add_task t r = (fst r, t # snd r)"

fun dispatch :: "MethodSet \<Rightarrow> Hydrator \<Rightarrow> gotype \<Rightarrow> bool \<Rightarrow> gval \<Rightarrow>
    (StructField \<times> gval) list \<Rightarrow> (StructField \<times> gval) list \<Rightarrow>
    error option \<times> hydrationResult outcome list" where
  "dispatch M h objType settable objVal flds [] = (None, [])"
| "dispatch M h objType settable objVal flds ((structField, v) # rest) =
     (let hydrateTag = Tag_Get (sf_Tag structField) (tag h);
          kind = type_Kind (sf_Type structField)
      in
        if hydrateTag = [] \<or> hydrateTag = ''-'' then
          dispatch M h objType settable objVal flds rest
        else if sf_Anonymous structField \<or> \<not> settable then
          (Some (ErrAnonymous (sf_Name structField)), [])
        else if kind \<noteq> KPtr \<and> (kind \<noteq> KSlice \<and> kind \<noteq> KArray) then
          (Some (ErrKind kind (sf_Name structField)), [])
        else
          (case M objType hydrateTag of
             Some method \<Rightarrow>
               add_task
                 (Done \<lparr> r_field = sf_Name structField, r_err = snd (method objVal),
                         r_val = fst (method objVal) \<rparr>)
                 (dispatch M h objType settable objVal flds rest)
           | None \<Rightarrow>
               (case type_Elem (sf_Type structField) of
                  None \<Rightarrow> add_task Panic (dispatch M h objType settable objVal flds rest)
                | Some elem \<Rightarrow>
                    (case finders h (type_key elem) of
                       None \<Rightarrow> dispatch M h objType settable objVal flds rest
                     | Some finder \<Rightarrow>
                         add_task
                           (case finder_input flds hydrateTag of
                              Panic \<Rightarrow> Panic
                            | Done inp \<Rightarrow>
                                Done \<lparr> r_field = sf_Name structField,
                                       r_err = snd (finder inp),
                                       r_val = fst (finder inp) \<rparr>)
                           (dispatch M h objType settable objVal flds rest)))))"

section \<open>Hydrate: draining the results\<close>

text \<open>The loop of lines 298 to 303, and every assignment to \<^verbatim>\<open>err\<close>: a new error overwrites.\<close>

fun last_error :: "error option \<Rightarrow> error option list \<Rightarrow> error option" where
  "last_error err [] = err"
| "last_error err (None # es) = last_error err es"
| "last_error err (Some e # es) = last_error (Some e) es"

fun elems :: "gval \<Rightarrow> gval list" where
  "elems (SliceV t xs) = xs"
| "elems (ArrayV t xs) = xs"
| "elems v = []"

fun with_elems :: "gval \<Rightarrow> gval list \<Rightarrow> gval" where
  "with_elems (SliceV t xs) ys = SliceV t ys"
| "with_elems (ArrayV t xs) ys = ArrayV t ys"
| "with_elems v ys = v"

text \<open>Lines 271 to 273: the elements are structs, or pointers to structs.\<close>

definition elem_is_struct :: "gotype \<Rightarrow> bool" where
  "elem_is_struct t =
     (case type_Elem t of
        None \<Rightarrow> False
      | Some e \<Rightarrow>
          (type_Kind e = KPtr \<and>
             (case type_Elem e of None \<Rightarrow> False | Some ee \<Rightarrow> type_Kind ee = KStruct))
          \<or> type_Kind e = KStruct)"

type_synonym hydrate_call = "clock \<Rightarrow> gval \<Rightarrow> (error option \<times> gval) outcome option"

text \<open>
  Lines 262 to 267: a pointer to a struct is hydrated first. The result is the error of the
  nested call and the pointer to the hydrated struct.
\<close>

definition hydrate_ptr :: "hydrate_call \<Rightarrow> clock \<Rightarrow> hydrationResult \<Rightarrow> gotype \<Rightarrow>
    (error option \<times> gval) outcome option" where
  "hydrate_ptr rec clk res resType =
     (if type_Kind resType = KPtr then
        (case TypeOf (Indirect (r_val res)) of
           None \<Rightarrow> Some Panic
         | Some et \<Rightarrow>
             if type_Kind et = KStruct
             then rec (\<lambda>p. clk (AtField (r_field res) # p)) (r_val res)
             else Some (Done (None, r_val res)))
      else Some (Done (None, r_val res)))"

text \<open>
  Lines 270 to 305: every element of a sequence of structs is hydrated by a task of its own;
  the errors are drained in completion order and the last one stays.
\<close>

definition hydrate_seq :: "hydrate_call \<Rightarrow> clock \<Rightarrow> string \<Rightarrow> gotype \<Rightarrow> gval \<Rightarrow>
    (error option \<times> gval) outcome option" where
  "hydrate_seq rec clk fname resType resVal =
     (if (type_Kind resType = KArray \<or> type_Kind resType = KSlice) \<and> elem_is_struct resType then
        (case join_tasks (map (\<lambda>(i, x). rec (\<lambda>p. clk (AtField fname # AtIndex i # p)) x)
                              (enumerate 0 (elems resVal))) of
           None \<Rightarrow> None
         | Some Panic \<Rightarrow> Some Panic
         | Some (Done rs) \<Rightarrow>
             Some (Done (last_error None
                           (map (\<lambda>(i, r). fst r)
                              (sort_key (\<lambda>(i, r). clk [AtField fname, AtIndex i]) (enumerate 0 rs))),
                         with_elems resVal (map snd rs))))
      else Some (Done (None, resVal)))"

text \<open>
  The body of the loop of lines 243 to 320 for one result: the error it assigns to
  \<^verbatim>\<open>err\<close> (if any) and the value it sets the field to (if any). \<^verbatim>\<open>Value.Set\<close> panics when
  the type of the value is not the type of the field.
\<close>

definition process :: "hydrate_call \<Rightarrow> clock \<Rightarrow> gotype \<Rightarrow> bool \<Rightarrow>
    (StructField \<times> gval) list \<Rightarrow> hydrationResult \<Rightarrow>
    (error option \<times> gval option) outcome option" where
  "process rec clk objType settable flds res =
     (case r_err res of
        Some e \<Rightarrow> Some (Done (Some e, None))
      | None \<Rightarrow>
         (case FieldByName flds (r_field res) of
            None \<Rightarrow> Some (Done (Some (ErrPrivate objType), None))
          | Some (field, cur) \<Rightarrow>
              if \<not> (settable \<and> is_exported (sf_Name field)) then
                Some (Done (Some (ErrPrivate objType), None))
              else
                (case TypeOf (r_val res) of
                   None \<Rightarrow> Some Panic
                 | Some resType \<Rightarrow>
                    (case hydrate_ptr rec clk res resType of
                       None \<Rightarrow> None
                     | Some Panic \<Rightarrow> Some Panic
                     | Some (Done (Some er, v)) \<Rightarrow> Some (Done (Some er, None))
                     | Some (Done (None, v)) \<Rightarrow>
                        (case hydrate_seq rec clk (r_field res) resType v of
                           None \<Rightarrow> None
                         | Some Panic \<Rightarrow> Some Panic
                         | Some (Done (serr, resVal)) \<Rightarrow>
                             if type_Kind (sf_Type field) \<noteq> type_Kind resType then
                               Some (Done (Some (ErrMismatch objType
                                                   (type_Name (sf_Type field)) resType), None))
                             else if sf_Type field \<noteq> resType then Some Panic
                             else Some (Done (serr, Some resVal)))))))"

fun drain :: "hydrate_call \<Rightarrow> clock \<Rightarrow> gotype \<Rightarrow> bool \<Rightarrow> (StructField \<times> gval) list \<Rightarrow>
    error option \<Rightarrow> hydrationResult list \<Rightarrow>
    (error option \<times> (StructField \<times> gval) list) outcome option" where
  "drain rec clk objType settable flds err [] = Some (Done (err, flds))"
| "drain rec clk objType settable flds err (res # rest) =
     (case process rec clk objType settable flds res of
        None \<Rightarrow> None
      | Some Panic \<Rightarrow> Some Panic
      | Some (Done (e, x)) \<Rightarrow>
          drain rec clk objType settable
            (case x of None \<Rightarrow> flds | Some resVal \<Rightarrow> set_field flds (r_field res) resVal)
            (last_error err [e]) rest)"

section \<open>Hydrate\<close>

fun with_fields :: "gval \<Rightarrow> (StructField \<times> gval) list \<Rightarrow> gval" where
  "with_fields (Ref (StructV p n fs)) flds = Ref (StructV p n flds)"
| "with_fields (StructV p n fs) flds = StructV p n flds"
| "with_fields v flds = v"

text \<open>
  One call of \<^verbatim>\<open>Hydrate\<close>, with \<open>rec\<close> for the nested calls. It returns the error and the
  object as the call leaves it (the object itself when it was passed by value).
\<close>

definition Hydrate_body :: "hydrate_call \<Rightarrow> clock \<Rightarrow> MethodSet \<Rightarrow> Hydrator \<Rightarrow> gval \<Rightarrow>
    (error option \<times> gval) outcome option" where
  "Hydrate_body rec clk M h obj =
     (case TypeOf obj of
        None \<Rightarrow> Some Panic
      | Some objType \<Rightarrow>
         (case TypeOf (Indirect obj) of
            None \<Rightarrow> Some Panic
          | Some indType \<Rightarrow>
              if type_Kind indType \<noteq> KStruct then Some (Done (Some ErrInvalidObject, obj))
              else
                (case Indirect obj of
                   StructV p n flds \<Rightarrow>
                     (let (err, tasks) = dispatch M h objType (CanSet obj) obj flds flds in
                        (case join_tasks (map Some tasks) of
                           Some (Done results) \<Rightarrow>
                             (case drain rec clk objType (CanSet obj) flds err
                                     (sort_key (\<lambda>r. clk [AtField (r_field r)]) results) of
                                None \<Rightarrow> None
                              | Some Panic \<Rightarrow> Some Panic
                              | Some (Done (err', flds')) \<Rightarrow>
                                  Some (Done (err', with_fields obj flds')))
                         | _ \<Rightarrow> Some Panic))
                 | _ \<Rightarrow> Some Panic)))"

text \<open>
  The nesting of calls is not bounded by the object: a method may return a struct whose
  hydration calls a method again. \<open>Hydrate n\<close> follows the code through \<open>n\<close> nested calls
  and is \<open>None\<close> when that is not enough.
\<close>

fun Hydrate :: "nat \<Rightarrow> clock \<Rightarrow> MethodSet \<Rightarrow> Hydrator \<Rightarrow> gval \<Rightarrow>
    (error option \<times> gval) outcome option" where
  "Hydrate 0 clk M h obj = None"
| "Hydrate (Suc n) clk M h obj = Hydrate_body (\<lambda>c v. Hydrate n c M h v) clk M h obj"

section \<open>Example programs\<close>

text \<open>
  The structs of the repository's tests and examples, in package \<^verbatim>\<open>hydrator\<close>, with the
  methods and finders they use. \<open>clock0\<close> lets every task complete at the same time, so
  results are drained in field order.
\<close>

definition clock0 :: clock where
  "clock0 p = 0"

definition mk_field :: "string \<Rightarrow> gotype \<Rightarrow> string \<Rightarrow> StructField" where
  "mk_field nm ty directive =
     \<lparr> sf_Name = nm, sf_Type = ty, sf_Tag = [(''hydrate'', directive)], sf_Anonymous = False \<rparr>"

definition tB :: gotype where "tB = TNamed ''hydrator'' ''B''"

definition tC :: gotype where "tC = TNamed ''hydrator'' ''C''"

definition tD :: gotype where "tD = TNamed ''hydrator'' ''D''"

definition B_val :: "int \<Rightarrow> gval" where
  "B_val i = StructV ''hydrator'' ''B'' [(mk_field ''ID'' TInt [], IntV i)]"

definition D_val :: "int \<Rightarrow> gval" where
  "D_val i = StructV ''hydrator'' ''D'' [(mk_field ''ID'' TInt [], IntV i)]"

definition C_val :: "int \<Rightarrow> gval" where
  "C_val i = StructV ''hydrator'' ''C''
     [(mk_field ''ID'' TInt [], IntV i), (mk_field ''D'' (TPtr tD) ''GetD'', NilPtr tD)]"

definition A_val :: gval where
  "A_val = StructV ''hydrator'' ''A''
     [(mk_field ''ID'' TInt [], IntV 1), (mk_field ''B'' (TPtr tB) ''BID'', NilPtr tB),
      (mk_field ''BID'' TInt [], IntV 123)]"



definition Wrong_val :: gval where
  "Wrong_val = StructV ''hydrator'' ''Wrong'' [(mk_field ''B'' (TPtr tB) ''GetB'', NilPtr tB)]"




definition Outer_val :: gval where
  "Outer_val = StructV ''hydrator'' ''Outer'' [(mk_field ''C'' (TPtr tC) ''GetC'', NilPtr tC)]"

definition tRecursiveErrMethod :: gotype where
  "tRecursiveErrMethod = TNamed ''hydrator'' ''RecursiveErrMethod''"

definition RecursiveErrMethod_val :: gval where
  "RecursiveErrMethod_val = StructV ''hydrator'' ''RecursiveErrMethod''
     [(mk_field ''ID'' TInt [], IntV 3), (mk_field ''C'' (TPtr tC) ''GetC'', NilPtr tC)]"

definition RecursiveErr_val :: gval where
  "RecursiveErr_val = StructV ''hydrator'' ''RecursiveErr''
     [(mk_field ''ID'' TInt [], IntV 1),
      (mk_field ''R'' (TPtr tRecursiveErrMethod) ''GetR'', NilPtr tRecursiveErrMethod)]"

definition RecursiveSliceErr_val :: gval where
  "RecursiveSliceErr_val = StructV ''hydrator'' ''RecursiveSliceErr''
     [(mk_field ''ID'' TInt [], IntV 1),
      (mk_field ''R'' (TSlice (TPtr tRecursiveErrMethod)) ''GetOne'',
         SliceV (TPtr tRecursiveErrMethod) [])]"

definition no_methods :: MethodSet where
  "no_methods t nm = None"

text \<open>The methods, by receiver type: what each returns.\<close>

definition ex_methods :: MethodSet where
  "ex_methods t nm =
     (if t = TPtr (TNamed ''hydrator'' ''Private'') \<and> nm = ''GetC''
        then Some (\<lambda>x. (Ref (C_val 3), None))
      else if t = TPtr (TNamed ''hydrator'' ''Private'') \<and> nm = ''GetD''
        then Some (\<lambda>x. (Ref (D_val 4), None))
      else if t = TPtr tC \<and> nm = ''GetD''
        then Some (\<lambda>x. (Ref (D_val 4), None))
      else if t = TPtr (TNamed ''hydrator'' ''Both'') \<and> nm = ''GetB''
        then Some (\<lambda>x. (Ref (B_val 7), None))
      else if t = TPtr (TNamed ''hydrator'' ''Wrong'') \<and> nm = ''GetB''
        then Some (\<lambda>x. (Ref (D_val 4), None))
      else if t = TPtr (TNamed ''hydrator'' ''Two'') \<and> nm = ''GetX''
        then Some (\<lambda>x. (Nil, Some (ErrUser ''x failed'')))
      else if t = TPtr (TNamed ''hydrator'' ''Two'') \<and> nm = ''GetY''
        then Some (\<lambda>x. (Nil, Some (ErrUser ''y failed'')))
      else if t = TPtr (TNamed ''hydrator'' ''HydrationError'') \<and> nm = ''GetError''
        then Some (\<lambda>x. (Ref (C_val 1), Some (ErrUser ''Hydration error'')))
      else if t = TPtr (TNamed ''hydrator'' ''Emb'') \<and> nm = ''GetC''
        then Some (\<lambda>x. (Ref (C_val 3), None))
      else if t = TPtr (TNamed ''hydrator'' ''Emb'') \<and> nm = ''GetD''
        then Some (\<lambda>x. (Ref (D_val 4), None))
      else if t = TPtr (TNamed ''hydrator'' ''Outer'') \<and> nm = ''GetC''
        then Some (\<lambda>x. (Ref (C_val 3), None))
      else if t = TPtr (TNamed ''hydrator'' ''RecursiveErr'') \<and> nm = ''GetR''
        then Some (\<lambda>x. (Ref RecursiveErrMethod_val, None))
      else if t = TPtr (TNamed ''hydrator'' ''RecursiveSliceErr'') \<and> nm = ''GetOne''
        then Some (\<lambda>x. (Ref RecursiveErrMethod_val, None))
      else if t = TPtr tRecursiveErrMethod \<and> nm = ''GetC''
        then Some (\<lambda>x. (Ref (C_val 3), Some (ErrUser ''Recursive error'')))
      else None)"


definition finder_one :: Finder where
  "finder_one x = (Ref (B_val 1), None)"

definition finder_two :: Finder where
  "finder_two x = (Ref (B_val 2), None)"


definition finder_slice :: Finder where
  "finder_slice x = (SliceV (TPtr tB) [Ref (B_val 1)], None)"

definition hydrator_slice :: Hydrator where
  "hydrator_slice = (NewHydrator []) \<lparr> finders := [type_key tB \<mapsto> finder_slice] \<rparr>"

section \<open>Properties of the loops\<close>

subsection \<open>The loop over the fields\<close>






lemma dispatch_nothing:
  assumes "\<forall>(sf, v) \<in> set fs.
             Tag_Get (sf_Tag sf) (tag h) \<noteq> [] \<and> Tag_Get (sf_Tag sf) (tag h) \<noteq> ''-'' \<longrightarrow>
               \<not> sf_Anonymous sf
               \<and> (\<exists>elem. type_Elem (sf_Type sf) = Some elem \<and> finders h (type_key elem) = None)
               \<and> M T (Tag_Get (sf_Tag sf) (tag h)) = None"
  shows "dispatch M h T True ov flds fs = (None, [])"
  using assms
proof (induction fs)
  case Nil
  then show ?case by simp
next
  case (Cons a fs)
  obtain f x where a: "a = (f, x)" by (cases a)
  from Cons have IH: "dispatch M h T True ov flds fs = (None, [])" by simp
  from Cons.prems have
    hd: "Tag_Get (sf_Tag f) (tag h) \<noteq> [] \<and> Tag_Get (sf_Tag f) (tag h) \<noteq> ''-'' \<longrightarrow>
               \<not> sf_Anonymous f
               \<and> (\<exists>elem. type_Elem (sf_Type f) = Some elem \<and> finders h (type_key elem) = None)
               \<and> M T (Tag_Get (sf_Tag f) (tag h)) = None"
    by (simp add: a)
  show ?case
  proof (cases "Tag_Get (sf_Tag f) (tag h) = [] \<or> Tag_Get (sf_Tag f) (tag h) = ''-''")
    case True
    then show ?thesis using IH by (auto simp: a)
  next
    case False
    with hd obtain elem where e: "\<not> sf_Anonymous f" "type_Elem (sf_Type f) = Some elem"
      "finders h (type_key elem) = None" "M T (Tag_Get (sf_Tag f) (tag h)) = None" by auto
    from e(2) have k: "type_Kind (sf_Type f) = KPtr \<or> type_Kind (sf_Type f) = KSlice
        \<or> type_Kind (sf_Type f) = KArray" by (cases "sf_Type f") auto
    from False e k IH show ?thesis by (auto simp: a Let_def)
  qed
qed


subsection \<open>Draining\<close>














subsection \<open>One call\<close>

lemma Hydrate_Suc_struct:
  assumes "Indirect obj = StructV p nm flds" "TypeOf obj = Some T"
  shows "Hydrate (Suc n) clk M h obj =
     (case join_tasks (map Some (snd (dispatch M h T (CanSet obj) obj flds flds))) of
        Some (Done results) \<Rightarrow>
          (case drain (\<lambda>c v. Hydrate n c M h v) clk T (CanSet obj) flds
                  (fst (dispatch M h T (CanSet obj) obj flds flds))
                  (sort_key (\<lambda>r. clk [AtField (r_field r)]) results) of
             None \<Rightarrow> None
           | Some Panic \<Rightarrow> Some Panic
           | Some (Done (err', flds')) \<Rightarrow> Some (Done (err', with_fields obj flds')))
      | _ \<Rightarrow> Some Panic)"
  using assms by (simp add: Hydrate_body_def case_prod_beta)

lemma with_fields_type: "TypeOf (with_fields obj flds') = TypeOf obj"
  by (induction obj flds' rule: with_fields.induct) auto

lemma Hydrate_type:
  assumes "Hydrate n clk M h obj = Some (Done (e, v))"
  shows "TypeOf v = TypeOf obj"
proof (cases n)
  case 0
  with assms show ?thesis by simp
next
  case (Suc k)
  with assms show ?thesis
    by (auto simp: Hydrate_body_def with_fields_type case_prod_beta
        split: option.splits if_splits gval.splits outcome.splits)
qed



subsection \<open>More fuel\<close>

text \<open>A call that returns with some fuel returns the same with more.\<close>

lemma join_tasks_mono:
  assumes "list_all2 (\<lambda>a b. \<forall>r. a = Some r \<longrightarrow> b = Some r) xs ys"
      and "join_tasks xs = Some r"
  shows "join_tasks ys = Some r"
  using assms
proof (induction xs ys arbitrary: r rule: list_all2_induct)
  case Nil
  then show ?case by simp
next
  case (Cons x xs y ys)
  show ?case
  proof (cases x)
    case None
    with Cons.prems have r: "r = Panic" and j: "join_tasks xs = Some Panic"
      by (auto split: option.splits outcome.splits)
    from Cons.IH[OF j] have "join_tasks ys = Some Panic" .
    with r show ?thesis by (auto split: option.splits outcome.splits)
  next
    case (Some a)
    with Cons.hyps(1) have y: "y = Some a" by simp
    show ?thesis
    proof (cases a)
      case Panic
      with Some y Cons.prems show ?thesis by simp
    next
      case (Done d)
      from Cons.prems Some Done obtain r' where j: "join_tasks xs = Some r'"
        by (auto split: option.splits outcome.splits)
      from Cons.IH[OF j] have "join_tasks ys = Some r'" .
      with j Cons.prems Some Done y show ?thesis by simp
    qed
  qed
qed

lemma hydrate_ptr_mono:
  "\<forall>c v r. rec c v = Some r \<longrightarrow> rec' c v = Some r \<Longrightarrow>
   hydrate_ptr rec clk res T = Some r \<Longrightarrow> hydrate_ptr rec' clk res T = Some r"
  by (auto simp: hydrate_ptr_def split: if_splits option.splits)

lemma hydrate_seq_mono:
  assumes "\<forall>c v r. rec c v = Some r \<longrightarrow> rec' c v = Some r" "hydrate_seq rec clk f T v = Some r"
  shows "hydrate_seq rec' clk f T v = Some r"
proof (cases "(type_Kind T = KArray \<or> type_Kind T = KSlice) \<and> elem_is_struct T")
  case False
  then have "hydrate_seq rec'' clk f T v = Some (Done (None, v))" for rec''
    by (auto simp: hydrate_seq_def)
  with assms(2) show ?thesis by simp
next
  case True
  let ?xs = "map (\<lambda>(i, x). rec (\<lambda>p. clk (AtField f # AtIndex i # p)) x) (enumerate 0 (elems v))"
  let ?ys = "map (\<lambda>(i, x). rec' (\<lambda>p. clk (AtField f # AtIndex i # p)) x) (enumerate 0 (elems v))"
  have l: "list_all2 (\<lambda>a b. \<forall>r. a = Some r \<longrightarrow> b = Some r) ?xs ?ys"
    using assms(1) by (auto simp: list_all2_conv_all_nth split: prod.splits)
  from assms(2) True obtain j where j: "join_tasks ?xs = Some j"
    by (auto simp: hydrate_seq_def split: option.splits)
  from join_tasks_mono[OF l j] have "join_tasks ?ys = Some j" .
  with j assms(2) True show ?thesis by (simp add: hydrate_seq_def)
qed

lemma process_mono:
  assumes "\<forall>c v r. rec c v = Some r \<longrightarrow> rec' c v = Some r" "process rec clk T s flds res = Some r"
  shows "process rec' clk T s flds res = Some r"
proof -
  note hp = hydrate_ptr_mono[OF assms(1)] and hs = hydrate_seq_mono[OF assms(1)]
  show ?thesis
  proof (cases "r_err res")
    case (Some e)
    with assms(2) show ?thesis by (simp add: process_def)
  next
    case None
    show ?thesis
    proof (cases "FieldByName flds (r_field res)")
      case fn: None
      with None assms(2) show ?thesis by (simp add: process_def)
    next
      case fs: (Some fc)
      obtain field cur where fc: "fc = (field, cur)" by (cases fc)
      show ?thesis
      proof (cases "s \<and> is_exported (sf_Name field)")
        case False
        with None fs fc assms(2) show ?thesis by (auto simp: process_def)
      next
        case True
        show ?thesis
        proof (cases "TypeOf (r_val res)")
          case tn: None
          with None fs fc True assms(2) show ?thesis by (simp add: process_def)
        next
          case ts: (Some resType)
          from assms(2) None fs fc True ts obtain a where
            a: "hydrate_ptr rec clk res resType = Some a"
            by (auto simp: process_def split: option.splits)
          note a' = hp[OF a]
          show ?thesis
          proof (cases a)
            case Panic
            with assms(2) None fs fc True ts a a' show ?thesis by (simp add: process_def)
          next
            case (Done ev)
            obtain e v where ev: "ev = (e, v)" by (cases ev)
            show ?thesis
            proof (cases e)
              case es: (Some er)
              with assms(2) None fs fc True ts a a' Done ev show ?thesis
                by (simp add: process_def)
            next
              case en: None
              from assms(2) None fs fc True ts a Done ev en obtain b where
                b: "hydrate_seq rec clk (r_field res) resType v = Some b"
                by (auto simp: process_def split: option.splits)
              note b' = hs[OF b]
              from assms(2) None fs fc True ts a a' Done ev en b b' show ?thesis
                by (simp add: process_def)
            qed
          qed
        qed
      qed
    qed
  qed
qed

lemma drain_mono:
  assumes "\<forall>c v r. rec c v = Some r \<longrightarrow> rec' c v = Some r" "drain rec clk T s flds err rs = Some r"
  shows "drain rec' clk T s flds err rs = Some r"
  using assms(2)
proof (induction rs arbitrary: flds err)
  case Nil
  then show ?case by simp
next
  case (Cons a rs)
  from Cons.prems obtain p where p: "process rec clk T s flds a = Some p"
    by (auto split: option.splits)
  note p' = process_mono[OF assms(1) p]
  show ?case
  proof (cases p)
    case Panic
    with Cons.prems p p' show ?thesis by simp
  next
    case (Done ex)
    obtain e x where ex: "ex = (e, x)" by (cases ex)
    from Cons.prems p Done ex have
      "drain rec clk T s (case x of None \<Rightarrow> flds | Some resVal \<Rightarrow> set_field flds (r_field a) resVal)
         (last_error err [e]) rs = Some r" by simp
    from Cons.IH[OF this] p' Done ex show ?thesis by simp
  qed
qed

lemma Hydrate_body_mono:
  assumes "\<forall>c v r. rec c v = Some r \<longrightarrow> rec' c v = Some r" "Hydrate_body rec clk M h obj = Some r"
  shows "Hydrate_body rec' clk M h obj = Some r"
  using assms(2) drain_mono[OF assms(1)]
  by (auto simp: Hydrate_body_def case_prod_beta
      split: option.splits if_splits gval.splits outcome.splits)

lemma Hydrate_Suc_mono: "Hydrate n clk M h obj = Some r \<Longrightarrow> Hydrate (Suc n) clk M h obj = Some r"
proof (induction n arbitrary: clk obj r)
  case 0
  then show ?case by simp
next
  case (Suc n)
  have mf: "\<forall>c v r. Hydrate n c M h v = Some r \<longrightarrow> Hydrate (Suc n) c M h v = Some r"
    using Suc.IH by blast
  have eq: "Hydrate (Suc k) clk M h obj = Hydrate_body (\<lambda>c v. Hydrate k c M h v) clk M h obj"
    for k by (rule Hydrate.simps(2))
  from Suc.prems have "Hydrate_body (\<lambda>c v. Hydrate n c M h v) clk M h obj = Some r"
    unfolding eq[of n] .
  from Hydrate_body_mono[OF mf this] show ?case unfolding eq[of "Suc n"] .
qed

lemma Hydrate_fuel: "Hydrate n clk M h obj = Some r \<Longrightarrow> n \<le> m \<Longrightarrow> Hydrate m clk M h obj = Some r"
  by (induction m) (auto simp: le_Suc_eq simp del: Hydrate.simps intro: Hydrate_Suc_mono)

subsection \<open>The drain order\<close>

text \<open>Draining takes every result once, whatever the clock.\<close>

lemma drain_order_perm:
  "set (sort_key (\<lambda>r. clk [AtField (r_field r)]) results) = set results
   \<and> length (sort_key (\<lambda>r. clk [AtField (r_field r)]) results) = length results"
  by simp

subsection \<open>The default hydrator\<close>

lemma NewHydrator_Nil:
  "NewHydrator [] = \<lparr> tag = ''hydrate'', finders = Map.empty, flowChan = Some 10 \<rparr>"
  by (simp add: NewHydrator_def)

section \<open>The claims\<close>










text \<open>
  C5. A result without error, for a settable field, whose value is a pointer to a struct:
  the nested call of \<^verbatim>\<open>Hydrate\<close> on the value comes first. When it returns an error, that
  error overwrites \<^verbatim>\<open>err\<close> and the field is not set; when it returns none and the types
  agree, the field is set to the pointer as the nested call left it; when it does not
  return, neither does the drain.
\<close>

theorem nested_pointer_hydrated_before_set:
  assumes "r_err res = None" "r_val res = Ref (StructV p' nm' fs')"
      and "FieldByName flds (r_field res) = Some (field, cur)" "is_exported (sf_Name field)"
  shows "(\<forall>er v. Hydrate n (\<lambda>q. clk (AtField (r_field res) # q)) M h (r_val res)
                    = Some (Done (Some er, v)) \<longrightarrow>
            drain (\<lambda>c v. Hydrate n c M h v) clk T True flds err (res # rest)
              = drain (\<lambda>c v. Hydrate n c M h v) clk T True flds (Some er) rest)
       \<and> (\<forall>v. Hydrate n (\<lambda>q. clk (AtField (r_field res) # q)) M h (r_val res)
                    = Some (Done (None, v)) \<longrightarrow>
            sf_Type field = TPtr (TNamed p' nm') \<longrightarrow>
            drain (\<lambda>c v. Hydrate n c M h v) clk T True flds err (res # rest)
              = drain (\<lambda>c v. Hydrate n c M h v) clk T True (set_field flds (r_field res) v) err rest)
       \<and> (Hydrate n (\<lambda>q. clk (AtField (r_field res) # q)) M h (r_val res) = None \<longrightarrow>
            drain (\<lambda>c v. Hydrate n c M h v) clk T True flds err (res # rest) = None)"
proof -
  let ?rec = "\<lambda>c v. Hydrate n c M h v"
  let ?T' = "TPtr (TNamed p' nm')"
  have ty: "TypeOf (r_val res) = Some ?T'" using assms(2) by simp
  have hp: "hydrate_ptr ?rec clk res ?T'
              = Hydrate n (\<lambda>q. clk (AtField (r_field res) # q)) M h (r_val res)"
    using assms(2) by (simp add: hydrate_ptr_def)
  have hs: "hydrate_seq ?rec clk (r_field res) ?T' v = Some (Done (None, v))" for v
    by (simp add: hydrate_seq_def)
  have 1: "drain ?rec clk T True flds err (res # rest) = drain ?rec clk T True flds (Some er) rest"
    if "Hydrate n (\<lambda>q. clk (AtField (r_field res) # q)) M h (r_val res) = Some (Done (Some er, v))"
    for er v
    using that assms(1,3,4) ty hp by (simp add: process_def)
  have 2: "drain ?rec clk T True flds err (res # rest)
             = drain ?rec clk T True (set_field flds (r_field res) v) err rest"
    if "Hydrate n (\<lambda>q. clk (AtField (r_field res) # q)) M h (r_val res) = Some (Done (None, v))"
       "sf_Type field = ?T'" for v
    using that assms(1,3,4) ty hp hs by (cases err) (simp_all add: process_def)
  have 3: "drain ?rec clk T True flds err (res # rest) = None"
    if "Hydrate n (\<lambda>q. clk (AtField (r_field res) # q)) M h (r_val res) = None"
    using that assms(1,3,4) ty hp by (simp add: process_def)
  from 1 2 3 show ?thesis by blast
qed

theorem nested_pointer_hydrated_before_set_witness:
  "Hydrate 2 (\<lambda>q. clock0 (AtField ''C'' # q)) ex_methods (NewHydrator []) (Ref (C_val 3))
     = Some (Done (None, Ref (StructV ''hydrator'' ''C''
          [(mk_field ''ID'' TInt [], IntV 3), (mk_field ''D'' (TPtr tD) ''GetD'', Ref (D_val 4))])))
   \<and> drain (\<lambda>c v. Hydrate 2 c ex_methods (NewHydrator []) v) clock0
        (TPtr (TNamed ''hydrator'' ''Outer'')) True
        [(mk_field ''C'' (TPtr tC) ''GetC'', NilPtr tC)] None
        [\<lparr> r_field = ''C'', r_err = None, r_val = Ref (C_val 3) \<rparr>]
     = Some (Done (None,
          [(mk_field ''C'' (TPtr tC) ''GetC'',
            Ref (StructV ''hydrator'' ''C''
              [(mk_field ''ID'' TInt [], IntV 3),
               (mk_field ''D'' (TPtr tD) ''GetD'', Ref (D_val 4))]))]))"
proof -
  let ?res = "\<lparr> r_field = ''C'', r_err = None, r_val = Ref (C_val 3) \<rparr>"
  let ?flds = "[(mk_field ''C'' (TPtr tC) ''GetC'', NilPtr tC)]"
  let ?v = "Ref (StructV ''hydrator'' ''C''
          [(mk_field ''ID'' TInt [], IntV 3), (mk_field ''D'' (TPtr tD) ''GetD'', Ref (D_val 4))])"
  have a: "r_err ?res = None" by simp
  have b: "r_val ?res = Ref (StructV ''hydrator'' ''C''
     [(mk_field ''ID'' TInt [], IntV 3), (mk_field ''D'' (TPtr tD) ''GetD'', NilPtr tD)])"
    by (simp add: C_val_def)
  have c: "FieldByName ?flds (r_field ?res) = Some (mk_field ''C'' (TPtr tC) ''GetC'', NilPtr tC)"
    by (simp add: mk_field_def)
  have d: "is_exported (sf_Name (mk_field ''C'' (TPtr tC) ''GetC''))"
    by (simp add: mk_field_def is_exported_def)
  have h: "Hydrate 2 (\<lambda>q. clock0 (AtField (r_field ?res) # q)) ex_methods (NewHydrator []) (r_val ?res)
             = Some (Done (None, ?v))"
    by (simp add: Hydrate_body_def mk_field_def NewHydrator_Nil Tag_Get_def
        ex_methods_def tC_def tD_def add_task_def clock0_def process_def hydrate_ptr_def
        hydrate_seq_def C_val_def D_val_def is_exported_def eval_nat_numeral)
  have ty: "sf_Type (mk_field ''C'' (TPtr tC) ''GetC'') = TPtr (TNamed ''hydrator'' ''C'')"
    by (simp add: mk_field_def tC_def)
  from nested_pointer_hydrated_before_set [OF a b c d, of 2 clock0 ex_methods "NewHydrator []"
      "TPtr (TNamed ''hydrator'' ''Outer'')" None "[]"] h ty
  have "drain (\<lambda>c v. Hydrate 2 c ex_methods (NewHydrator []) v) clock0
          (TPtr (TNamed ''hydrator'' ''Outer'')) True ?flds None [?res]
        = drain (\<lambda>c v. Hydrate 2 c ex_methods (NewHydrator []) v) clock0
          (TPtr (TNamed ''hydrator'' ''Outer'')) True (set_field ?flds (r_field ?res) ?v) None []"
    by blast
  then have "drain (\<lambda>c v. Hydrate 2 c ex_methods (NewHydrator []) v) clock0
          (TPtr (TNamed ''hydrator'' ''Outer'')) True ?flds None [?res]
        = Some (Done (None, [(mk_field ''C'' (TPtr tC) ''GetC'', ?v)]))"
    by (simp add: mk_field_def)
  with h show ?thesis by simp
qed

text \<open>
  C6, as amended. A result without error, for a settable field, whose kind differs from the
  field's kind, and whose nested hydration (lines 262 to 305) has completed without the
  error of a nested pointer: the mismatch error of line 310 overwrites \<^verbatim>\<open>err\<close> and the field
  is not set.
\<close>

theorem kind_mismatch_recorded:
  assumes "r_err res = None"
      and "FieldByName flds (r_field res) = Some (field, cur)" "is_exported (sf_Name field)"
      and "TypeOf (r_val res) = Some resType"
      and "type_Kind (sf_Type field) \<noteq> type_Kind resType"
      and "hydrate_ptr rec clk res resType = Some (Done (None, v))"
      and "hydrate_seq rec clk (r_field res) resType v = Some (Done (serr, resVal))"
  shows "drain rec clk T True flds err (res # rest)
           = drain rec clk T True flds
               (Some (ErrMismatch T (type_Name (sf_Type field)) resType)) rest"
  using assms by (simp add: process_def)

theorem kind_mismatch_recorded_witness:
  "Hydrate 2 clock0 no_methods hydrator_slice (Ref A_val)
     = Some (Done (Some (ErrMismatch (TPtr (TNamed ''hydrator'' ''A'')) [] (TSlice (TPtr tB))),
                   Ref A_val))"
proof -
  let ?flds = "[(mk_field ''ID'' TInt [], IntV 1), (mk_field ''B'' (TPtr tB) ''BID'', NilPtr tB),
      (mk_field ''BID'' TInt [], IntV 123)]"
  let ?res = "\<lparr> r_field = ''B'', r_err = None, r_val = SliceV (TPtr tB) [Ref (B_val 1)] \<rparr>"
  let ?rec = "\<lambda>c v. Hydrate (Suc 0) c no_methods hydrator_slice v"
  let ?T = "TPtr (TNamed ''hydrator'' ''A'')"
  have a: "r_err ?res = None" by simp
  have b: "FieldByName ?flds (r_field ?res) = Some (mk_field ''B'' (TPtr tB) ''BID'', NilPtr tB)"
    by (simp add: mk_field_def)
  have c: "is_exported (sf_Name (mk_field ''B'' (TPtr tB) ''BID''))"
    by (simp add: mk_field_def is_exported_def)
  have d: "TypeOf (r_val ?res) = Some (TSlice (TPtr tB))" by simp
  have e: "type_Kind (sf_Type (mk_field ''B'' (TPtr tB) ''BID'')) \<noteq> type_Kind (TSlice (TPtr tB))"
    by (simp add: mk_field_def)
  have f: "hydrate_ptr ?rec clock0 ?res (TSlice (TPtr tB)) = Some (Done (None, r_val ?res))"
    by (simp add: hydrate_ptr_def)
  have g: "hydrate_seq ?rec clock0 (r_field ?res) (TSlice (TPtr tB)) (r_val ?res)
             = Some (Done (None, r_val ?res))"
    by (simp add: hydrate_seq_def elem_is_struct_def tB_def B_val_def Hydrate_body_def
        mk_field_def hydrator_slice_def NewHydrator_Nil Tag_Get_def clock0_def)
  have dr: "drain ?rec clock0 ?T True ?flds None [?res]
          = Some (Done (Some (ErrMismatch ?T [] (TSlice (TPtr tB))), ?flds))"
    using kind_mismatch_recorded [OF a b c d e f g, of ?T None "[]"]
    by (simp add: mk_field_def)
  have di: "dispatch no_methods hydrator_slice ?T True (Ref A_val) ?flds ?flds = (None, [Done ?res])"
    by (simp add: mk_field_def hydrator_slice_def NewHydrator_Nil Tag_Get_def no_methods_def
        type_key_def tB_def add_task_def finder_input_def is_exported_def finder_slice_def)
  have i: "Indirect (Ref A_val) = StructV ''hydrator'' ''A'' ?flds"
    and t: "TypeOf (Ref A_val) = Some ?T" and cs: "CanSet (Ref A_val) = True"
    by (simp_all add: A_val_def)
  have "Hydrate (Suc (Suc 0)) clock0 no_methods hydrator_slice (Ref A_val)
     = Some (Done (Some (ErrMismatch ?T [] (TSlice (TPtr tB))), Ref A_val))"
    unfolding Hydrate_Suc_struct[OF i t] cs di
    by (simp add: dr A_val_def del: Hydrate.simps drain.simps)
  then show ?thesis by (simp add: eval_nat_numeral)
qed

text \<open>
  C6 as stated fails when the nested hydration of a pointer result returns an error: the
  \<^verbatim>\<open>continue\<close> of line 265 skips the kind check. The field \<^verbatim>\<open>R\<close> is a slice, the method
  returns a pointer to a struct whose own method fails, and \<^verbatim>\<open>Hydrate\<close> returns that
  failure, not a mismatch error.
\<close>

theorem recursive_error_preempts_kind_check_counterexample:
  "type_Kind (TPtr tRecursiveErrMethod) \<noteq> type_Kind (TSlice (TPtr tRecursiveErrMethod))
   \<and> dispatch ex_methods (NewHydrator []) (TPtr (TNamed ''hydrator'' ''RecursiveSliceErr'')) True
       (Ref RecursiveSliceErr_val)
       [(mk_field ''ID'' TInt [], IntV 1),
        (mk_field ''R'' (TSlice (TPtr tRecursiveErrMethod)) ''GetOne'',
           SliceV (TPtr tRecursiveErrMethod) [])]
       [(mk_field ''ID'' TInt [], IntV 1),
        (mk_field ''R'' (TSlice (TPtr tRecursiveErrMethod)) ''GetOne'',
           SliceV (TPtr tRecursiveErrMethod) [])]
       = (None, [Done \<lparr> r_field = ''R'', r_err = None, r_val = Ref RecursiveErrMethod_val \<rparr>])
   \<and> Hydrate 2 clock0 ex_methods (NewHydrator []) (Ref RecursiveSliceErr_val)
       = Some (Done (Some (ErrUser ''Recursive error''), Ref RecursiveSliceErr_val))"
  by (simp add: Hydrate_body_def RecursiveSliceErr_val_def RecursiveErrMethod_val_def
        tRecursiveErrMethod_def mk_field_def NewHydrator_Nil Tag_Get_def
        ex_methods_def tC_def tD_def add_task_def clock0_def process_def hydrate_ptr_def
        hydrate_seq_def C_val_def D_val_def is_exported_def eval_nat_numeral)



text \<open>
  C8, as amended. For an object passed by reference whose annotated fields are not embedded,
  are pointers or sequences, have no finder registered for their element type and name no
  method of the object's type, \<^verbatim>\<open>Hydrate\<close> returns no error and leaves every field at its
  value.
\<close>

theorem no_finder_no_method_leaves_object:
  assumes "obj = Ref (StructV p nm flds)"
      and "\<forall>(sf, v) \<in> set flds.
             Tag_Get (sf_Tag sf) (tag h) \<noteq> [] \<and> Tag_Get (sf_Tag sf) (tag h) \<noteq> ''-'' \<longrightarrow>
               \<not> sf_Anonymous sf
               \<and> (\<exists>elem. type_Elem (sf_Type sf) = Some elem \<and> finders h (type_key elem) = None)
               \<and> M (TPtr (TNamed p nm)) (Tag_Get (sf_Tag sf) (tag h)) = None"
  shows "Hydrate (Suc n) clk M h obj = Some (Done (None, obj))"
proof -
  have i: "Indirect obj = StructV p nm flds" and t: "TypeOf obj = Some (TPtr (TNamed p nm))"
    and c: "CanSet obj" using assms(1) by simp_all
  from assms(2)
  have "dispatch M h (TPtr (TNamed p nm)) True obj flds flds = (None, [])"
    by (rule dispatch_nothing[of flds h M "TPtr (TNamed p nm)"])
  then show ?thesis
    unfolding Hydrate_Suc_struct[OF i t] using c by (simp add: assms(1))
qed

theorem no_finder_no_method_leaves_object_witness:
  "Hydrate 1 clock0 no_methods (NewHydrator []) (Ref A_val) = Some (Done (None, Ref A_val))"
  using no_finder_no_method_leaves_object [of "Ref A_val" "''hydrator''" "''A''" _ "NewHydrator []" no_methods 0 clock0]
  by (simp add: A_val_def mk_field_def NewHydrator_Nil no_methods_def Tag_Get_def tB_def)

text \<open>
  C8 as stated fails for an object passed by value: with no finder registered and no method,
  \<^verbatim>\<open>Hydrate\<close> returns the error of line 170 for the annotated field \<^verbatim>\<open>B\<close>.
\<close>

theorem by_value_no_finder_counterexample:
  "no_methods (TNamed ''hydrator'' ''A'') ''BID'' = None
   \<and> finders (NewHydrator []) (type_key tB) = None
   \<and> Hydrate 1 clock0 no_methods (NewHydrator []) A_val
       = Some (Done (Some (ErrAnonymous ''B''), A_val))"
  by (simp add: Hydrate_body_def A_val_def mk_field_def NewHydrator_Nil no_methods_def
      Tag_Get_def tB_def)

text \<open>
  C9. The check of line 309 compares kinds only. A method that returns a pointer to a struct
  of another type than the field's pointee passes it (both are pointers), the nested
  hydration returns no error, and \<^verbatim>\<open>field.Set\<close> panics: \<^verbatim>\<open>Hydrate\<close> returns no error at all.
\<close>

theorem set_panics_on_other_pointee:
  assumes "obj = Ref (StructV p nm [(sf, NilPtr t)])"
      and "sf = \<lparr> sf_Name = F, sf_Type = TPtr t, sf_Tag = [(tag h, directive)], sf_Anonymous = False \<rparr>"
      and "is_exported F" "directive \<noteq> []" "directive \<noteq> ''-''"
      and "M (TPtr (TNamed p nm)) directive = Some method"
      and "method obj = (Ref (StructV p' nm' fs'), None)"
      and "TNamed p' nm' \<noteq> t"
      and "Hydrate (Suc n) (\<lambda>q. clk (AtField F # q)) M h (Ref (StructV p' nm' fs')) = Some (Done (None, v'))"
  shows "type_Kind (TPtr (TNamed p' nm')) = type_Kind (sf_Type sf)
       \<and> Hydrate (Suc (Suc n)) clk M h obj = Some Panic"
proof -
  have i: "Indirect obj = StructV p nm [(sf, NilPtr t)]"
    and t: "TypeOf obj = Some (TPtr (TNamed p nm))" and c: "CanSet obj = True"
    using assms(1) by simp_all
  let ?res = "\<lparr> r_field = F, r_err = None, r_val = Ref (StructV p' nm' fs') \<rparr>"
  have d: "dispatch M h (TPtr (TNamed p nm)) True obj [(sf, NilPtr t)] [(sf, NilPtr t)]
             = (None, [Done ?res])"
    using assms(2-7) by (simp add: Tag_Get_def Let_def add_task_def)
  have v': "TypeOf v' = Some (TPtr (TNamed p' nm'))"
    using Hydrate_type[OF assms(9)] by simp
  have pr: "process (\<lambda>c v. Hydrate (Suc n) c M h v) clk (TPtr (TNamed p nm)) True
              [(sf, NilPtr t)] ?res = Some Panic"
    using assms(2,3,8,9) v'
    by (simp add: process_def hydrate_ptr_def hydrate_seq_def)
  have k: "type_Kind (TPtr (TNamed p' nm')) = type_Kind (sf_Type sf)"
    using assms(2) by simp
  have "Hydrate (Suc (Suc n)) clk M h obj = Some Panic"
    unfolding Hydrate_Suc_struct[OF i t] c d
    by (simp add: pr del: Hydrate.simps dispatch.simps)
  with k show ?thesis by simp
qed

theorem set_panics_on_other_pointee_witness:
  "type_Kind (TPtr tD) = type_Kind (TPtr tB)
   \<and> Hydrate 2 clock0 ex_methods (NewHydrator []) (Ref Wrong_val) = Some Panic"
  using set_panics_on_other_pointee [of "Ref Wrong_val" "''hydrator''" "''Wrong''"
      "mk_field ''B'' (TPtr tB) ''GetB''" tB "''B''" "NewHydrator []" "''GetB''" ex_methods
      "\<lambda>x. (Ref (D_val 4), None)" "''hydrator''" "''D''" "[(mk_field ''ID'' TInt [], IntV 4)]"
      0 clock0 "Ref (D_val 4)"]
  by (simp add: Wrong_val_def mk_field_def NewHydrator_Nil Tag_Get_def ex_methods_def
      tB_def tC_def tD_def D_val_def is_exported_def Hydrate_body_def clock0_def eval_nat_numeral)

text \<open>
  C10. The registry key is the package path followed by the type name, with no separator.
  Two different types with the same concatenation share one entry: after a finder is
  registered for the first, registering a finder for the second replaces what a lookup for
  the first returns.
\<close>

theorem finder_key_collision:
  assumes "TypeOf (Indirect obj1) = Some t1" "TypeOf (Indirect obj2) = Some t2"
      and "t1 \<noteq> t2" "type_key t1 = type_key t2"
  shows "\<exists>h1 h2. Finder h obj1 f1 = Done h1 \<and> finders h1 (type_key t1) = Some f1
           \<and> Finder h1 obj2 f2 = Done h2 \<and> finders h2 (type_key t1) = Some f2"
  using assms by (simp add: Finder_def)

theorem finder_key_collision_witness:
  "TNamed ''ab'' ''C'' \<noteq> TNamed ''a'' ''bC''
   \<and> type_key (TNamed ''ab'' ''C'') = type_key (TNamed ''a'' ''bC'')
   \<and> (\<exists>h1 h2. Finder (NewHydrator []) (StructV ''ab'' ''C'' []) finder_one = Done h1
          \<and> finders h1 (type_key (TNamed ''ab'' ''C'')) = Some finder_one
          \<and> Finder h1 (StructV ''a'' ''bC'' []) finder_two = Done h2
          \<and> finders h2 (type_key (TNamed ''ab'' ''C'')) = Some finder_two)"
  using finder_key_collision [of "StructV ''ab'' ''C'' []" "TNamed ''ab'' ''C''"
      "StructV ''a'' ''bC'' []" "TNamed ''a'' ''bC''" "NewHydrator []" finder_one finder_two]
  by (simp add: type_key_def)

end
